theory Spec2Isabelle
  imports
    Main
    "HOL-Library.Log_Nat"
    "HOL-Library.FSet"
    "HOL-Library.Sublist"
    "HOL-Library.Char_ord"
    "HOL-Library.List_Lexorder"
begin

section \<open>Python values used by the coffee order builder\<close>

subsection \<open>Numbers: unbounded integers and binary64 floats\<close>

text \<open>
  The price computed by \<^verbatim>\<open>CoffeeOrderBuilder.build\<close> starts as a Python \<^verbatim>\<open>int\<close>
  (an entry of \<^verbatim>\<open>BASE_PRICES\<close>) and becomes a \<^verbatim>\<open>float\<close> as soon as it is multiplied by
  a size multiplier. A finite float is represented by the rational number it denotes.
  Every float operation computes the exact result and rounds it to the nearest number
  with a 53 bit significand, ties going to the even significand, as IEEE 754 binary64
  does. The exponent range of binary64 is not represented: the model agrees with
  Python for results whose magnitude lies between \<open>2 powi - 1022\<close> and \<open>2 ^ 1024\<close>,
  which covers every number below.
\<close>

definition ilog2 :: "rat \<Rightarrow> int" where
  \<comment> \<open>for \<open>0 < q\<close>: the exponent \<open>e\<close> with \<open>2 powi e \<le> q < 2 powi (e + 1)\<close>\<close>
  "ilog2 q =
     (let (a, b) = quotient_of q; k = bitlen a - bitlen b
      in if 2 powi k \<le> q then k else k - 1)"

definition round_half_even :: "rat \<Rightarrow> int" where
  "round_half_even q =
     (let f = \<lfloor>q\<rfloor>; d = q - of_int f
      in if d < 1 / 2 then f
         else if 1 / 2 < d then f + 1
         else if even f then f else f + 1)"

definition round_double :: "rat \<Rightarrow> rat" where
  "round_double q =
     (if q = 0 then 0
      else let u = 2 powi (ilog2 \<bar>q\<bar> - 52)
           in of_int (round_half_even (q / u)) * u)"

datatype pynum = PyInt int | PyFloat rat

definition float_literal :: "rat \<Rightarrow> pynum" where
  \<comment> \<open>a decimal literal such as \<^verbatim>\<open>1.2\<close> denotes the double nearest to it\<close>
  "float_literal q = PyFloat (round_double q)"

fun to_float :: "pynum \<Rightarrow> rat" where
  "to_float (PyInt i) = round_double (of_int i)"
| "to_float (PyFloat x) = x"

fun py_mul :: "pynum \<Rightarrow> pynum \<Rightarrow> pynum" where
  "py_mul (PyInt i) (PyInt j) = PyInt (i * j)"
| "py_mul a b = PyFloat (round_double (to_float a * to_float b))"

fun py_add :: "pynum \<Rightarrow> pynum \<Rightarrow> pynum" where
  "py_add (PyInt i) (PyInt j) = PyInt (i + j)"
| "py_add a b = PyFloat (round_double (to_float a + to_float b))"

subsection \<open>Strings\<close>

text \<open>
  A Python \<^verbatim>\<open>str\<close> is modelled by the list of bytes of its UTF-8 encoding. The
  lexicographic order on byte lists coincides with Python's order on strings (by code
  point), so \<^verbatim>\<open>sorted\<close> is \<^const>\<open>sorted_list_of_fset\<close>.
\<close>

fun join :: "string \<Rightarrow> string list \<Rightarrow> string" where
  "join sep [] = []"
| "join sep [x] = x"
| "join sep (x # y # ys) = x @ sep @ join sep (y # ys)"

fun str_nat :: "nat \<Rightarrow> string" where
  "str_nat n =
     (if n < 10 then [''0123456789'' ! n]
      else str_nat (n div 10) @ [''0123456789'' ! (n mod 10)])"

declare str_nat.simps [simp del]

definition str_int :: "int \<Rightarrow> string" where
  "str_int i = (if i < 0 then ''-'' @ str_nat (nat (- i)) else str_nat (nat i))"

definition repr_str_set :: "string list \<Rightarrow> string" where
  \<comment> \<open>the text of a set of plain names, printed in the order given\<close>
  "repr_str_set xs = ''{'' @ join '', '' (map (\<lambda>x. [CHR 0x27] @ x @ [CHR 0x27]) xs) @ ''}''"

subsection \<open>Exceptions\<close>

datatype error = ValueError string | KeyError string | AttributeError string

fun dict_get :: "(string \<times> 'v) list \<Rightarrow> string \<Rightarrow> error + 'v" where
  "dict_get d k = (case map_of d k of None \<Rightarrow> Inl (KeyError k) | Some v \<Rightarrow> Inr v)"

section \<open>The order and its builder\<close>

text \<open>
  The frozen dataclass \<^verbatim>\<open>CoffeeOrder\<close>. Both classes have attributes called
  \<^verbatim>\<open>base\<close>, \<^verbatim>\<open>size\<close>, \<^verbatim>\<open>milk\<close> and so on; the fields of the order are prefixed with
  \<open>order_\<close> and those of the builder with \<open>self_\<close>. All fields of an order are immutable
  Python values (strings, an integer, a boolean, a float and a tuple of strings), so
  an order is a plain value.
\<close>

record CoffeeOrder =
  order_base :: string
  order_size :: string
  order_milk :: string
  order_syrups :: "string list"
  order_sugar :: int
  order_iced :: bool
  order_price :: pynum
  order_description :: string

record CoffeeOrderBuilder =
  self_base :: "string option"
  self_size :: "string option"
  self_milk :: string
  self_syrups :: "string fset"
  self_sugar :: int
  self_iced :: bool

subsection \<open>Class constants\<close>

definition BASE_PRICES :: "(string \<times> pynum) list" where
  "BASE_PRICES =
     [(''espresso'', PyInt 200), (''americano'', PyInt 250),
      (''latte'', PyInt 300), (''cappuccino'', PyInt 320)]"

definition SIZE_MULTIPLIERS :: "(string \<times> pynum) list" where
  "SIZE_MULTIPLIERS =
     [(''small'', float_literal 1), (''medium'', float_literal (12 / 10)),
      (''large'', float_literal (14 / 10))]"

definition MILK_PRICES :: "(string \<times> pynum) list" where
  "MILK_PRICES =
     [(''none'', float_literal 0), (''whole'', PyInt 30), (''skim'', PyInt 30),
      (''oat'', PyInt 60), (''soy'', PyInt 50)]"

definition SYRUP_PRICE :: int where "SYRUP_PRICE = 40"
definition ICED_PRICE :: int where "ICED_PRICE = 20"
definition MAX_SYRUPS :: nat where "MAX_SYRUPS = 4"
definition SUGAR_RANGE :: "int \<times> int" where "SUGAR_RANGE = (0, 5)"

definition VALID_BASES :: "string set" where
  "VALID_BASES = set (map fst BASE_PRICES)"

definition VALID_SIZES :: "string set" where
  "VALID_SIZES = set (map fst SIZE_MULTIPLIERS)"

definition VALID_MILKS :: "string set" where
  "VALID_MILKS = set (map fst MILK_PRICES)"

subsection \<open>Methods\<close>

text \<open>
  A method call is a function from the builder's state to the state after the call,
  paired with what the call produced: \<open>None\<close> when it returned the builder itself,
  \<open>Some e\<close> when it raised \<open>e\<close>. The state after a raised exception is part of the
  result, because the object lives on after the exception. The set printed at the end
  of an "Invalid ..." message is listed in the order of the dictionary; Python prints
  it in the iteration order of the set, which differs between runs.
\<close>

definition reset :: "CoffeeOrderBuilder \<Rightarrow> error option \<times> CoffeeOrderBuilder" where
  "reset self =
     (None, self\<lparr>self_base := None, self_size := None, self_milk := ''none'',
                 self_syrups := {||}, self_sugar := 0, self_iced := False\<rparr>)"

definition init :: CoffeeOrderBuilder where
  \<comment> \<open>\<^verbatim>\<open>__init__\<close> calls \<^verbatim>\<open>reset\<close> on the new object\<close>
  "init =
     \<lparr>self_base = None, self_size = None, self_milk = ''none'',
      self_syrups = {||}, self_sugar = 0, self_iced = False\<rparr>"

definition set_base :: "string \<Rightarrow> CoffeeOrderBuilder \<Rightarrow> error option \<times> CoffeeOrderBuilder" where
  "set_base base self =
     (if base \<notin> VALID_BASES
      then (Some (ValueError (''Invalid base: '' @ base @ ''. Allowed: ''
                    @ repr_str_set (map fst BASE_PRICES))), self)
      else (None, self\<lparr>self_base := Some base\<rparr>))"

definition set_size :: "string \<Rightarrow> CoffeeOrderBuilder \<Rightarrow> error option \<times> CoffeeOrderBuilder" where
  "set_size size' self =
     (if size' \<notin> VALID_SIZES
      then (Some (ValueError (''Invalid size: '' @ size' @ ''. Allowed: ''
                    @ repr_str_set (map fst SIZE_MULTIPLIERS))), self)
      else (None, self\<lparr>self_size := Some size'\<rparr>))"

definition set_milk :: "string \<Rightarrow> CoffeeOrderBuilder \<Rightarrow> error option \<times> CoffeeOrderBuilder" where
  "set_milk milk self =
     (if milk \<notin> VALID_MILKS
      then (Some (ValueError (''Invalid milk: '' @ milk @ ''. Allowed: ''
                    @ repr_str_set (map fst MILK_PRICES))), self)
      else (None, self\<lparr>self_milk := milk\<rparr>))"

definition add_syrup :: "string \<Rightarrow> CoffeeOrderBuilder \<Rightarrow> error option \<times> CoffeeOrderBuilder" where
  "add_syrup syrup_name self =
     (if fcard (self_syrups self) \<ge> MAX_SYRUPS then (None, self)
      else (None, self\<lparr>self_syrups := finsert syrup_name (self_syrups self)\<rparr>))"

definition set_sugar :: "int \<Rightarrow> CoffeeOrderBuilder \<Rightarrow> error option \<times> CoffeeOrderBuilder" where
  "set_sugar teaspoons self =
     (let (min_sugar_spoons, max_sugar_spoons) = SUGAR_RANGE
      in if \<not> (min_sugar_spoons \<le> teaspoons \<and> teaspoons \<le> max_sugar_spoons)
         then (Some (ValueError (''Sugar must be between '' @ str_int min_sugar_spoons
                       @ '' and '' @ str_int max_sugar_spoons @ '' teaspoons'')), self)
         else (None, self\<lparr>self_sugar := teaspoons\<rparr>))"

definition set_iced :: "bool \<Rightarrow> CoffeeOrderBuilder \<Rightarrow> error option \<times> CoffeeOrderBuilder" where
  \<comment> \<open>the parameter defaults to \<open>True\<close> when the caller leaves it out\<close>
  "set_iced iced self = (None, self\<lparr>self_iced := iced\<rparr>)"

definition clear_extras :: "CoffeeOrderBuilder \<Rightarrow> error option \<times> CoffeeOrderBuilder" where
  "clear_extras self =
     (None, self\<lparr>self_milk := ''none'', self_syrups := {||},
                 self_sugar := 0, self_iced := False\<rparr>)"

definition build_price :: "string \<Rightarrow> string \<Rightarrow> CoffeeOrderBuilder \<Rightarrow> error + pynum" where
  "build_price base size' self =
     (case dict_get BASE_PRICES base of
        Inl e \<Rightarrow> Inl e
      | Inr price0 \<Rightarrow>
     (case dict_get SIZE_MULTIPLIERS size' of
        Inl e \<Rightarrow> Inl e
      | Inr mult \<Rightarrow>
     (case dict_get MILK_PRICES (self_milk self) of
        Inl e \<Rightarrow> Inl e
      | Inr milk_price \<Rightarrow>
          (let price1 = py_mul price0 mult;
               price2 = py_add price1 milk_price;
               price3 = py_add price2
                          (py_mul (PyInt (int (fcard (self_syrups self)))) (PyInt SYRUP_PRICE))
           in Inr (if self_iced self then py_add price3 (PyInt ICED_PRICE) else price3)))))"

definition build_description :: "string \<Rightarrow> string \<Rightarrow> CoffeeOrderBuilder \<Rightarrow> string" where
  "build_description base size' self =
     (let d0 = size' @ '' '' @ base;
          d1 = (if self_milk self \<noteq> ''none''
                then d0 @ '' with '' @ self_milk self @ '' milk'' else d0);
          d2 = (if self_syrups self \<noteq> {||}
                then d1 @ '' + '' @ join '', '' (sorted_list_of_fset (self_syrups self))
                else d1);
          d3 = (if self_iced self then d2 @ '' (iced)'' else d2)
      in if self_sugar self > 0
         then d3 @ '' '' @ str_int (self_sugar self) @ '' tsp sugar'' else d3)"

definition build :: "CoffeeOrderBuilder \<Rightarrow> (error + CoffeeOrder) \<times> CoffeeOrderBuilder" where
  "build self =
     (case self_base self of
        None \<Rightarrow> (Inl (ValueError ''Base must be set''), self)
      | Some base \<Rightarrow>
     (case self_size self of
        None \<Rightarrow> (Inl (ValueError ''Size must be set''), self)
      | Some size' \<Rightarrow>
     (case build_price base size' self of
        Inl e \<Rightarrow> (Inl e, self)
      | Inr price \<Rightarrow>
          (Inr \<lparr>order_base = base, order_size = size', order_milk = self_milk self,
                order_syrups = sorted_list_of_fset (self_syrups self),
                order_sugar = self_sugar self, order_iced = self_iced self,
                order_price = price,
                order_description = build_description base size' self\<rparr>, self))))"

subsection \<open>Sequences of calls\<close>

text \<open>
  A caller holds one builder and the orders it has been handed so far. A call either
  raises, returns the builder (so that calls can be chained) or, for
  \<^verbatim>\<open>build\<close>, returns a new order. A caller that catches an exception goes on
  with the builder as the failed call left it; a caller that does not catch it stops,
  and the state it stops in is the state after a shorter sequence of calls.
\<close>

datatype call =
  SetBase string | SetSize string | SetMilk string | AddSyrup string | SetSugar int
  | SetIced bool | ClearExtras | Reset | Build

datatype outcome = Raised error | ReturnedSelf | ReturnedOrder CoffeeOrder

fun chained :: "error option \<times> CoffeeOrderBuilder \<Rightarrow> outcome \<times> CoffeeOrderBuilder" where
  "chained (None, self) = (ReturnedSelf, self)"
| "chained (Some e, self) = (Raised e, self)"

fun perform :: "call \<Rightarrow> CoffeeOrderBuilder \<Rightarrow> outcome \<times> CoffeeOrderBuilder" where
  "perform (SetBase base) self = chained (set_base base self)"
| "perform (SetSize size') self = chained (set_size size' self)"
| "perform (SetMilk milk) self = chained (set_milk milk self)"
| "perform (AddSyrup syrup_name) self = chained (add_syrup syrup_name self)"
| "perform (SetSugar teaspoons) self = chained (set_sugar teaspoons self)"
| "perform (SetIced iced) self = chained (set_iced iced self)"
| "perform ClearExtras self = chained (clear_extras self)"
| "perform Reset self = chained (reset self)"
| "perform Build self =
     (case build self of
        (Inl e, self') \<Rightarrow> (Raised e, self')
      | (Inr ord, self') \<Rightarrow> (ReturnedOrder ord, self'))"

record session =
  builder :: CoffeeOrderBuilder
  orders :: "CoffeeOrder list"

definition step :: "call \<Rightarrow> session \<Rightarrow> session" where
  "step c ss =
     (case perform c (builder ss) of
        (ReturnedOrder ord, self') \<Rightarrow> \<lparr>builder = self', orders = orders ss @ [ord]\<rparr>
      | (_, self') \<Rightarrow> \<lparr>builder = self', orders = orders ss\<rparr>)"

fun run :: "call list \<Rightarrow> session \<Rightarrow> session" where
  "run [] ss = ss"
| "run (c # cs) ss = run cs (step c ss)"

section \<open>The builder and its orders as objects in a store\<close>

text \<open>
  The records above read the set of syrups as a value. In Python the attribute
  \<^verbatim>\<open>syrups\<close> of a builder is a reference to a set object: \<^verbatim>\<open>add_syrup\<close> and
  \<^verbatim>\<open>clear_extras\<close> change that object in place, \<^verbatim>\<open>reset\<close> binds the attribute to a
  new set, and \<^verbatim>\<open>build\<close> hands the order a new tuple made from a sorted copy. Whether
  an order can be changed through the builder depends on these references, so the
  methods are given a second time over an explicit store: a map from addresses to
  set and tuple objects, a counter for the next unused address, and the attributes of
  the builder, where \<open>attr_syrups\<close> is an address. An order is a frozen dataclass
  instance: its attributes cannot be assigned, no method of the builder is passed an
  order, and strings, integers, booleans and floats are immutable, so the one way to an
  object that can change is the address in \<open>field_syrups\<close>. The lists that
  \<^verbatim>\<open>list\<close> and \<^verbatim>\<open>sorted\<close> create inside \<^verbatim>\<open>build\<close> are dropped when the call returns and
  are not put in the store.
\<close>

type_synonym addr = nat

datatype obj = SetObj "string fset" | TupleObj "string list"

record BuilderObj =
  attr_base :: "string option"
  attr_size :: "string option"
  attr_milk :: string
  attr_syrups :: addr
  attr_sugar :: int
  attr_iced :: bool

record OrderObj =
  field_base :: string
  field_size :: string
  field_milk :: string
  field_syrups :: addr
  field_sugar :: int
  field_iced :: bool
  field_price :: pynum
  field_description :: string

record store =
  heap :: "addr \<rightharpoonup> obj"
  free :: addr
  this :: BuilderObj

definition alloc :: "obj \<Rightarrow> store \<Rightarrow> addr \<times> store" where
  "alloc ob st = (free st, st\<lparr>heap := (heap st)(free st \<mapsto> ob), free := Suc (free st)\<rparr>)"

text \<open>
  What \<^verbatim>\<open>len\<close> and \<^verbatim>\<open>sorted\<close> give for either kind of object. Only a set has the
  methods \<^verbatim>\<open>add\<close> and \<^verbatim>\<open>clear\<close>; on a tuple the call raises AttributeError, and so
  does reading an attribute that is bound to nothing.
\<close>

fun py_len :: "obj \<Rightarrow> nat" where
  "py_len (SetObj S) = fcard S"
| "py_len (TupleObj xs) = length xs"

fun py_sorted :: "obj \<Rightarrow> string list" where
  "py_sorted (SetObj S) = sorted_list_of_fset S"
| "py_sorted (TupleObj xs) = sort xs"

definition no_attribute :: "string \<Rightarrow> string \<Rightarrow> error" where
  "no_attribute cls name =
     AttributeError ([CHR 0x27] @ cls @ [CHR 0x27] @ '' object has no attribute ''
                       @ [CHR 0x27] @ name @ [CHR 0x27])"

definition reset_obj :: "store \<Rightarrow> error option \<times> store" where
  "reset_obj st =
     (let (a, st') = alloc (SetObj {||}) st
      in (None, st'\<lparr>this := (this st')\<lparr>attr_base := None, attr_size := None,
                    attr_milk := ''none'', attr_syrups := a, attr_sugar := 0,
                    attr_iced := False\<rparr>\<rparr>))"

definition new_store :: store where
  "new_store =
     \<lparr>heap = [0 \<mapsto> SetObj {||}], free = 1,
      this = \<lparr>attr_base = None, attr_size = None, attr_milk = ''none'', attr_syrups = 0,
              attr_sugar = 0, attr_iced = False\<rparr>\<rparr>"

definition set_base_obj :: "string \<Rightarrow> store \<Rightarrow> error option \<times> store" where
  "set_base_obj base st =
     (if base \<notin> VALID_BASES
      then (Some (ValueError (''Invalid base: '' @ base @ ''. Allowed: ''
                    @ repr_str_set (map fst BASE_PRICES))), st)
      else (None, st\<lparr>this := (this st)\<lparr>attr_base := Some base\<rparr>\<rparr>))"

definition set_size_obj :: "string \<Rightarrow> store \<Rightarrow> error option \<times> store" where
  "set_size_obj size' st =
     (if size' \<notin> VALID_SIZES
      then (Some (ValueError (''Invalid size: '' @ size' @ ''. Allowed: ''
                    @ repr_str_set (map fst SIZE_MULTIPLIERS))), st)
      else (None, st\<lparr>this := (this st)\<lparr>attr_size := Some size'\<rparr>\<rparr>))"

definition set_milk_obj :: "string \<Rightarrow> store \<Rightarrow> error option \<times> store" where
  "set_milk_obj milk st =
     (if milk \<notin> VALID_MILKS
      then (Some (ValueError (''Invalid milk: '' @ milk @ ''. Allowed: ''
                    @ repr_str_set (map fst MILK_PRICES))), st)
      else (None, st\<lparr>this := (this st)\<lparr>attr_milk := milk\<rparr>\<rparr>))"

definition add_syrup_obj :: "string \<Rightarrow> store \<Rightarrow> error option \<times> store" where
  "add_syrup_obj syrup_name st =
     (case heap st (attr_syrups (this st)) of
        None \<Rightarrow> (Some (no_attribute ''CoffeeOrderBuilder'' ''syrups''), st)
      | Some ob \<Rightarrow>
          if py_len ob \<ge> MAX_SYRUPS then (None, st)
          else (case ob of
                  SetObj S \<Rightarrow>
                    (None, st\<lparr>heap := (heap st)(attr_syrups (this st) \<mapsto>
                                        SetObj (finsert syrup_name S))\<rparr>)
                | TupleObj xs \<Rightarrow> (Some (no_attribute ''tuple'' ''add''), st)))"

definition set_sugar_obj :: "int \<Rightarrow> store \<Rightarrow> error option \<times> store" where
  "set_sugar_obj teaspoons st =
     (let (min_sugar_spoons, max_sugar_spoons) = SUGAR_RANGE
      in if \<not> (min_sugar_spoons \<le> teaspoons \<and> teaspoons \<le> max_sugar_spoons)
         then (Some (ValueError (''Sugar must be between '' @ str_int min_sugar_spoons
                       @ '' and '' @ str_int max_sugar_spoons @ '' teaspoons'')), st)
         else (None, st\<lparr>this := (this st)\<lparr>attr_sugar := teaspoons\<rparr>\<rparr>))"

definition set_iced_obj :: "bool \<Rightarrow> store \<Rightarrow> error option \<times> store" where
  "set_iced_obj iced st = (None, st\<lparr>this := (this st)\<lparr>attr_iced := iced\<rparr>\<rparr>)"

definition clear_extras_obj :: "store \<Rightarrow> error option \<times> store" where
  "clear_extras_obj st =
     (let st1 = st\<lparr>this := (this st)\<lparr>attr_milk := ''none''\<rparr>\<rparr>
      in case heap st1 (attr_syrups (this st1)) of
           Some (SetObj S) \<Rightarrow>
             (None, st1\<lparr>heap := (heap st1)(attr_syrups (this st1) \<mapsto> SetObj {||}),
                        this := (this st1)\<lparr>attr_sugar := 0, attr_iced := False\<rparr>\<rparr>)
         | Some (TupleObj xs) \<Rightarrow> (Some (no_attribute ''tuple'' ''clear''), st1)
         | None \<Rightarrow> (Some (no_attribute ''CoffeeOrderBuilder'' ''syrups''), st1))"

definition build_price_obj ::
  "string \<Rightarrow> string \<Rightarrow> BuilderObj \<Rightarrow> obj option \<Rightarrow> error + pynum" where
  "build_price_obj base size' self syrups =
     (case dict_get BASE_PRICES base of
        Inl e \<Rightarrow> Inl e
      | Inr price0 \<Rightarrow>
     (case dict_get SIZE_MULTIPLIERS size' of
        Inl e \<Rightarrow> Inl e
      | Inr mult \<Rightarrow>
     (case dict_get MILK_PRICES (attr_milk self) of
        Inl e \<Rightarrow> Inl e
      | Inr milk_price \<Rightarrow>
     (case syrups of
        None \<Rightarrow> Inl (no_attribute ''CoffeeOrderBuilder'' ''syrups'')
      | Some ob \<Rightarrow>
          (let price1 = py_mul price0 mult;
               price2 = py_add price1 milk_price;
               price3 = py_add price2
                          (py_mul (PyInt (int (py_len ob))) (PyInt SYRUP_PRICE))
           in Inr (if attr_iced self then py_add price3 (PyInt ICED_PRICE) else price3))))))"

definition build_description_obj :: "string \<Rightarrow> string \<Rightarrow> BuilderObj \<Rightarrow> obj \<Rightarrow> string" where
  "build_description_obj base size' self syrups =
     (let d0 = size' @ '' '' @ base;
          d1 = (if attr_milk self \<noteq> ''none''
                then d0 @ '' with '' @ attr_milk self @ '' milk'' else d0);
          d2 = (if py_len syrups \<noteq> 0
                then d1 @ '' + '' @ join '', '' (py_sorted syrups)
                else d1);
          d3 = (if attr_iced self then d2 @ '' (iced)'' else d2)
      in if attr_sugar self > 0
         then d3 @ '' '' @ str_int (attr_sugar self) @ '' tsp sugar'' else d3)"

definition build_obj :: "store \<Rightarrow> (error + OrderObj) \<times> store" where
  "build_obj st =
     (case attr_base (this st) of
        None \<Rightarrow> (Inl (ValueError ''Base must be set''), st)
      | Some base \<Rightarrow>
     (case attr_size (this st) of
        None \<Rightarrow> (Inl (ValueError ''Size must be set''), st)
      | Some size' \<Rightarrow>
     (case build_price_obj base size' (this st) (heap st (attr_syrups (this st))) of
        Inl e \<Rightarrow> (Inl e, st)
      | Inr price \<Rightarrow>
     (case heap st (attr_syrups (this st)) of
        None \<Rightarrow> (Inl (no_attribute ''CoffeeOrderBuilder'' ''syrups''), st)
      | Some syrups \<Rightarrow>
          (let (t, st') = alloc (TupleObj (py_sorted syrups)) st
           in (Inr \<lparr>field_base = base, field_size = size', field_milk = attr_milk (this st),
                     field_syrups = t, field_sugar = attr_sugar (this st),
                     field_iced = attr_iced (this st), field_price = price,
                     field_description = build_description_obj base size' (this st) syrups\<rparr>,
               st'))))))"

text \<open>
  Calls on the store, and a program that keeps the orders it is handed, as above.
\<close>

datatype outcome_obj = RaisedObj error | ReturnedSelfObj | ReturnedOrderObj OrderObj

fun chained_obj :: "error option \<times> store \<Rightarrow> outcome_obj \<times> store" where
  "chained_obj (None, st) = (ReturnedSelfObj, st)"
| "chained_obj (Some e, st) = (RaisedObj e, st)"

fun perform_obj :: "call \<Rightarrow> store \<Rightarrow> outcome_obj \<times> store" where
  "perform_obj (SetBase base) st = chained_obj (set_base_obj base st)"
| "perform_obj (SetSize size') st = chained_obj (set_size_obj size' st)"
| "perform_obj (SetMilk milk) st = chained_obj (set_milk_obj milk st)"
| "perform_obj (AddSyrup syrup_name) st = chained_obj (add_syrup_obj syrup_name st)"
| "perform_obj (SetSugar teaspoons) st = chained_obj (set_sugar_obj teaspoons st)"
| "perform_obj (SetIced iced) st = chained_obj (set_iced_obj iced st)"
| "perform_obj ClearExtras st = chained_obj (clear_extras_obj st)"
| "perform_obj Reset st = chained_obj (reset_obj st)"
| "perform_obj Build st =
     (case build_obj st of
        (Inl e, st') \<Rightarrow> (RaisedObj e, st')
      | (Inr ord, st') \<Rightarrow> (ReturnedOrderObj ord, st'))"

record program =
  memory :: store
  held :: "OrderObj list"

definition step_obj :: "call \<Rightarrow> program \<Rightarrow> program" where
  "step_obj c p =
     (case perform_obj c (memory p) of
        (ReturnedOrderObj ord, st') \<Rightarrow> \<lparr>memory = st', held = held p @ [ord]\<rparr>
      | (_, st') \<Rightarrow> \<lparr>memory = st', held = held p\<rparr>)"

fun run_obj :: "call list \<Rightarrow> program \<Rightarrow> program" where
  "run_obj [] p = p"
| "run_obj (c # cs) p = run_obj cs (step_obj c p)"

text \<open>
  Reading the store: the builder with its set of syrups, an order with its tuple of
  syrups, and the outcome of a call, as values of the first model. A store is well
  formed when the builder refers to a set below the next unused address, an order when
  it refers to a tuple below it.
\<close>

definition builder_value :: "store \<Rightarrow> CoffeeOrderBuilder option" where
  "builder_value st =
     (case heap st (attr_syrups (this st)) of
        Some (SetObj S) \<Rightarrow>
          Some \<lparr>self_base = attr_base (this st), self_size = attr_size (this st),
                self_milk = attr_milk (this st), self_syrups = S,
                self_sugar = attr_sugar (this st), self_iced = attr_iced (this st)\<rparr>
      | _ \<Rightarrow> None)"

definition order_value :: "store \<Rightarrow> OrderObj \<Rightarrow> CoffeeOrder option" where
  "order_value st ord =
     (case heap st (field_syrups ord) of
        Some (TupleObj xs) \<Rightarrow>
          Some \<lparr>order_base = field_base ord, order_size = field_size ord,
                order_milk = field_milk ord, order_syrups = xs,
                order_sugar = field_sugar ord, order_iced = field_iced ord,
                order_price = field_price ord, order_description = field_description ord\<rparr>
      | _ \<Rightarrow> None)"

fun outcome_value :: "store \<Rightarrow> outcome_obj \<Rightarrow> outcome option" where
  "outcome_value st (RaisedObj e) = Some (Raised e)"
| "outcome_value st ReturnedSelfObj = Some ReturnedSelf"
| "outcome_value st (ReturnedOrderObj ord) = map_option ReturnedOrder (order_value st ord)"

definition wf_store :: "store \<Rightarrow> bool" where
  "wf_store st =
     (attr_syrups (this st) < free st \<and>
      (case heap st (attr_syrups (this st)) of Some (SetObj S) \<Rightarrow> True | _ \<Rightarrow> False))"

definition wf_order :: "store \<Rightarrow> OrderObj \<Rightarrow> bool" where
  "wf_order st ord =
     (field_syrups ord < free st \<and>
      (case heap st (field_syrups ord) of Some (TupleObj xs) \<Rightarrow> True | _ \<Rightarrow> False))"

definition wf_program :: "program \<Rightarrow> bool" where
  "wf_program p = (wf_store (memory p) \<and> list_all (wf_order (memory p)) (held p))"

definition new_program :: program where
  "new_program = \<lparr>memory = new_store, held = []\<rparr>"

section \<open>The specification's formulas\<close>

text \<open>
  The price and the description as the specification words them, over exact rational
  arithmetic, to be compared with what \<^const>\<open>build\<close> computes.
\<close>

definition basePriceOf :: "string \<Rightarrow> rat" where
  "basePriceOf b =
     (if b = ''espresso'' then 200 else if b = ''americano'' then 250
      else if b = ''latte'' then 300 else if b = ''cappuccino'' then 320 else 0)"

definition sizeMultiplierOf :: "string \<Rightarrow> rat" where
  "sizeMultiplierOf z =
     (if z = ''small'' then 1 else if z = ''medium'' then 12 / 10
      else if z = ''large'' then 14 / 10 else 0)"

definition milkPriceOf :: "string \<Rightarrow> rat" where
  "milkPriceOf m =
     (if m = ''none'' then 0 else if m = ''whole'' then 30 else if m = ''skim'' then 30
      else if m = ''oat'' then 60 else if m = ''soy'' then 50 else 0)"

definition spec_price :: "string \<Rightarrow> string \<Rightarrow> string \<Rightarrow> nat \<Rightarrow> bool \<Rightarrow> rat" where
  "spec_price b z m n iced =
     basePriceOf b * sizeMultiplierOf z + milkPriceOf m + of_nat n * 40
       + (if iced then 20 else 0)"

definition spec_description ::
  "string \<Rightarrow> string \<Rightarrow> string \<Rightarrow> string fset \<Rightarrow> int \<Rightarrow> bool \<Rightarrow> string" where
  "spec_description b z m syrups sugar iced =
     z @ '' '' @ b
       @ (if m \<noteq> ''none'' then '' with '' @ m @ '' milk'' else [])
       @ (if syrups \<noteq> {||} then '' + '' @ join '', '' (sorted_list_of_fset syrups) else [])
       @ (if iced then '' (iced)'' else [])
       @ (if 0 < sugar then '' '' @ str_int sugar @ '' tsp sugar'' else [])"

definition lower_char :: "char \<Rightarrow> char" where
  "lower_char c =
     (if CHR ''A'' \<le> c \<and> c \<le> CHR ''Z'' then char_of (of_char c + (32::nat)) else c)"

definition mentions :: "string \<Rightarrow> string \<Rightarrow> bool" where
  \<comment> \<open>the message contains the name of the field, whatever the case of its letters\<close>
  "mentions field msg = sublist (map lower_char field) (map lower_char msg)"

subsection \<open>The scenarios of the specification\<close>

definition scenario1 :: CoffeeOrderBuilder where
  "scenario1 =
     \<lparr>self_base = Some ''latte'', self_size = Some ''medium'', self_milk = ''oat'',
      self_syrups = {|''vanilla''|}, self_sugar = 2, self_iced = True\<rparr>"

definition scenario2 :: CoffeeOrderBuilder where
  "scenario2 =
     \<lparr>self_base = Some ''americano'', self_size = Some ''large'', self_milk = ''none'',
      self_syrups = {|''caramel''|}, self_sugar = 0, self_iced = False\<rparr>"

definition only_base :: CoffeeOrderBuilder where
  "only_base = init\<lparr>self_base := Some ''espresso''\<rparr>"

definition fresh :: session where
  "fresh = \<lparr>builder = init, orders = []\<rparr>"

definition five_syrups :: "call list" where
  "five_syrups =
     [AddSyrup ''vanilla'', AddSyrup ''caramel'', AddSyrup ''chocolate'', AddSyrup ''hazelnut'',
      AddSyrup ''mint'']"

definition four_syrups :: CoffeeOrderBuilder where
  "four_syrups = init\<lparr>self_syrups := {|''vanilla'', ''caramel'', ''chocolate'', ''hazelnut''|}\<rparr>"

definition espresso_small :: CoffeeOrderBuilder where
  "espresso_small = init\<lparr>self_base := Some ''espresso'', self_size := Some ''small''\<rparr>"

definition first_calls :: "call list" where
  "first_calls = [SetBase ''latte'', SetSize ''medium'', AddSyrup ''vanilla'', Build]"

definition later_calls :: "call list" where
  "later_calls = [ClearExtras, AddSyrup ''caramel'', SetBase ''americano'', Build, Reset]"

definition vanilla_program :: program where
  "vanilla_program = run_obj first_calls new_program"

definition vanilla_order :: CoffeeOrder where
  "vanilla_order =
     \<lparr>order_base = ''latte'', order_size = ''medium'', order_milk = ''none'',
      order_syrups = [''vanilla''], order_sugar = 0, order_iced = False,
      order_price = PyFloat 400, order_description = ''medium latte + vanilla''\<rparr>"

definition caramel_order :: CoffeeOrder where
  "caramel_order =
     \<lparr>order_base = ''americano'', order_size = ''medium'', order_milk = ''none'',
      order_syrups = [''caramel''], order_sugar = 0, order_iced = False,
      order_price = PyFloat 340, order_description = ''medium americano + caramel''\<rparr>"

section \<open>Float arithmetic on the prices of the catalogue\<close>

text \<open>An integer below \<open>2 ^ 53\<close> is a double, so rounding leaves it alone.\<close>

lemma round_half_even_of_int: "round_half_even (of_int m) = m"
  by (simp add: round_half_even_def)

lemma ilog2_of_int:
  assumes "0 < n"
  shows "ilog2 (of_int n) = bitlen n - 1"
proof -
  have b: "2 ^ nat (bitlen n - 1) \<le> n" using bitlen_bounds [OF assms] by simp
  have ge: "1 \<le> bitlen n"
    using assms bitlen_eq_zero_iff [of n] bitlen_nonneg [of n] by linarith
  have "(2::rat) powi (bitlen n - 1) = of_int (2 ^ nat (bitlen n - 1))"
    using ge by (simp add: power_int_def)
  also have "\<dots> \<le> of_int n" using b by (simp only: of_int_le_iff)
  finally have "(2::rat) powi (bitlen n - 1) \<le> of_int n" .
  moreover have "bitlen 1 = 1" by (simp add: bitlen_alt_def)
  ultimately show ?thesis
    by (simp add: ilog2_def)
qed

lemma bitlen_le_53:
  assumes "0 < n" "n < 2 ^ 53"
  shows "bitlen n \<le> 53"
proof (rule ccontr)
  assume "\<not> bitlen n \<le> 53"
  then have "nat 53 \<le> nat (bitlen n - 1)" by simp
  then have "(2::int) ^ 53 \<le> 2 ^ nat (bitlen n - 1)"
    by (intro power_increasing) simp_all
  also have "\<dots> \<le> n" using bitlen_bounds [OF assms(1)] by simp
  finally show False using assms(2) by simp
qed

lemma round_double_of_int_pos:
  assumes "0 < n" "n < 2 ^ 53"
  shows "round_double (of_int n) = of_int n"
proof -
  define d where "d = nat (53 - bitlen n)"
  have le: "bitlen n \<le> 53" using bitlen_le_53 [OF assms] .
  have e: "ilog2 \<bar>of_int n\<bar> - 52 = - int d"
    using assms(1) le by (simp add: ilog2_of_int d_def)
  have u: "(2::rat) powi (- int d) = 1 / 2 ^ d"
    by (simp add: power_int_minus field_simps)
  have q: "(of_int n :: rat) / (1 / 2 ^ d) = of_int (n * 2 ^ d)" by simp
  have "round_double (of_int n) =
          of_int (round_half_even (of_int (n * 2 ^ d))) * (1 / 2 ^ d)"
    using assms(1) unfolding round_double_def e u q Let_def by simp
  also have "\<dots> = of_int n"
    unfolding round_half_even_of_int by simp
  finally show ?thesis .
qed

lemma round_double_of_int:
  assumes "0 \<le> n" "n < 2 ^ 53"
  shows "round_double (of_int n) = of_int n"
  using assms round_double_of_int_pos [of n]
  by (cases "n = 0") (simp_all add: round_double_def)

lemma to_float_small_int:
  assumes "0 \<le> k" "k < 2 ^ 53"
  shows "to_float (PyInt k) = of_int k"
  using assms by (simp add: round_double_of_int)

lemma py_add_exact:
  assumes "0 \<le> a" "0 \<le> k" "a + k < 2 ^ 53" "to_float v = of_int k"
  shows "py_add (PyFloat (of_int a)) v = PyFloat (of_int (a + k))"
proof -
  have "py_add (PyFloat (of_int a)) v = PyFloat (round_double (of_int a + to_float v))"
    by (cases v) simp_all
  also have "of_int a + to_float v = (of_int (a + k) :: rat)"
    using assms(4) by simp
  also have "round_double (of_int (a + k)) = of_int (a + k)"
    using assms(1-3) by (intro round_double_of_int) simp_all
  finally show ?thesis .
qed

text \<open>
  The twelve products of a base price and a size multiplier, each rounded once. The
  doubles nearest to 1.2 and 1.4 lie below them, and every product rounds back to the
  integer; 320 times 1.4 is a tie that goes to the even significand.
\<close>

lemma mul_table:
  "py_mul (PyInt 200) (float_literal 1) = PyFloat 200"
  "py_mul (PyInt 200) (float_literal (6 / 5)) = PyFloat 240"
  "py_mul (PyInt 200) (float_literal (7 / 5)) = PyFloat 280"
  "py_mul (PyInt 250) (float_literal 1) = PyFloat 250"
  "py_mul (PyInt 250) (float_literal (6 / 5)) = PyFloat 300"
  "py_mul (PyInt 250) (float_literal (7 / 5)) = PyFloat 350"
  "py_mul (PyInt 300) (float_literal 1) = PyFloat 300"
  "py_mul (PyInt 300) (float_literal (6 / 5)) = PyFloat 360"
  "py_mul (PyInt 300) (float_literal (7 / 5)) = PyFloat 420"
  "py_mul (PyInt 320) (float_literal 1) = PyFloat 320"
  "py_mul (PyInt 320) (float_literal (6 / 5)) = PyFloat 384"
  "py_mul (PyInt 320) (float_literal (7 / 5)) = PyFloat 448"
  by code_simp+

lemma base_times_size:
  assumes "b \<in> VALID_BASES" "z \<in> VALID_SIZES"
  shows "\<exists>p m P. dict_get BASE_PRICES b = Inr p \<and> dict_get SIZE_MULTIPLIERS z = Inr m
           \<and> py_mul p m = PyFloat (of_int P) \<and> 0 \<le> P \<and> P \<le> 448
           \<and> basePriceOf b * sizeMultiplierOf z = of_int P"
proof -
  from assms(1)
  have b: "b = ''espresso'' \<or> b = ''americano'' \<or> b = ''latte'' \<or> b = ''cappuccino''"
    by (auto simp add: VALID_BASES_def BASE_PRICES_def)
  from assms(2) have z: "z = ''small'' \<or> z = ''medium'' \<or> z = ''large''"
    by (auto simp add: VALID_SIZES_def SIZE_MULTIPLIERS_def)
  from b z show ?thesis
    by (elim disjE)
      (simp_all add: BASE_PRICES_def SIZE_MULTIPLIERS_def basePriceOf_def sizeMultiplierOf_def
         mul_table)
qed

lemma milk_cases:
  assumes "m \<in> VALID_MILKS"
  shows "m = ''none'' \<or> m = ''whole'' \<or> m = ''skim'' \<or> m = ''oat'' \<or> m = ''soy''"
  using assms by (auto simp add: VALID_MILKS_def MILK_PRICES_def)

lemma milk_price_lookup:
  assumes "m \<in> VALID_MILKS"
  shows "\<exists>v k. dict_get MILK_PRICES m = Inr v \<and> to_float v = of_int k \<and> 0 \<le> k \<and> k \<le> 60
           \<and> milkPriceOf m = of_int k"
proof -
  have f: "to_float (PyInt 30) = 30" "to_float (PyInt 60) = 60" "to_float (PyInt 50) = 50"
    using to_float_small_int [of 30] to_float_small_int [of 60] to_float_small_int [of 50]
    by simp_all
  have r: "\<And>v k. dict_get MILK_PRICES m = Inr v \<and> to_float v = of_int k
             \<and> milkPriceOf m = of_int k \<Longrightarrow> 0 \<le> k \<and> k \<le> 60 \<Longrightarrow> ?thesis"
    by blast
  from milk_cases [OF assms] show ?thesis
  proof (elim disjE)
    assume "m = ''none''"
    then have "dict_get MILK_PRICES m = Inr (PyFloat 0) \<and> to_float (PyFloat 0) = of_int 0
        \<and> milkPriceOf m = of_int 0"
      by (simp add: MILK_PRICES_def milkPriceOf_def float_literal_def round_double_def)
    then show ?thesis by (rule r) simp
  next
    assume "m = ''whole''"
    then have "dict_get MILK_PRICES m = Inr (PyInt 30) \<and> to_float (PyInt 30) = of_int 30
        \<and> milkPriceOf m = of_int 30"
      using f by (simp add: MILK_PRICES_def milkPriceOf_def)
    then show ?thesis by (rule r) simp
  next
    assume "m = ''skim''"
    then have "dict_get MILK_PRICES m = Inr (PyInt 30) \<and> to_float (PyInt 30) = of_int 30
        \<and> milkPriceOf m = of_int 30"
      using f by (simp add: MILK_PRICES_def milkPriceOf_def)
    then show ?thesis by (rule r) simp
  next
    assume "m = ''oat''"
    then have "dict_get MILK_PRICES m = Inr (PyInt 60) \<and> to_float (PyInt 60) = of_int 60
        \<and> milkPriceOf m = of_int 60"
      using f by (simp add: MILK_PRICES_def milkPriceOf_def)
    then show ?thesis by (rule r) simp
  next
    assume "m = ''soy''"
    then have "dict_get MILK_PRICES m = Inr (PyInt 50) \<and> to_float (PyInt 50) = of_int 50
        \<and> milkPriceOf m = of_int 50"
      using f by (simp add: MILK_PRICES_def milkPriceOf_def)
    then show ?thesis by (rule r) simp
  qed
qed

lemma build_price_exact:
  assumes "b \<in> VALID_BASES" "z \<in> VALID_SIZES" "self_milk s \<in> VALID_MILKS"
    and "fcard (self_syrups s) < 2 ^ 47"
  shows "build_price b z s =
           Inr (PyFloat (spec_price b z (self_milk s) (fcard (self_syrups s)) (self_iced s)))"
proof -
  obtain p m P where pm: "dict_get BASE_PRICES b = Inr p" "dict_get SIZE_MULTIPLIERS z = Inr m"
    and mul: "py_mul p m = PyFloat (of_int P)" and P: "0 \<le> P" "P \<le> 448"
    and Pspec: "basePriceOf b * sizeMultiplierOf z = of_int P"
    using base_times_size [OF assms(1,2)] by blast
  obtain v k where v: "dict_get MILK_PRICES (self_milk s) = Inr v"
    and vk: "to_float v = of_int k" and k: "0 \<le> k" "k \<le> 60"
    and kspec: "milkPriceOf (self_milk s) = of_int k"
    using milk_price_lookup [OF assms(3)] by blast
  define n where "n = int (fcard (self_syrups s))"
  have n: "0 \<le> n" "n < 2 ^ 47" using assms(4) by (simp_all add: n_def)
  have s1: "py_add (PyFloat (of_int P)) v = PyFloat (of_int (P + k))"
    using P k vk by (intro py_add_exact) simp_all
  have t: "to_float (PyInt (n * 40)) = of_int (n * 40)"
    using n by (intro to_float_small_int) simp_all
  have s2: "py_add (PyFloat (of_int (P + k))) (PyInt (n * 40)) =
              PyFloat (of_int (P + k + n * 40))"
    using P k n t by (intro py_add_exact) simp_all
  have t20: "to_float (PyInt 20) = of_int 20"
    using to_float_small_int [of 20] by simp
  have s3: "py_add (PyFloat (of_int (P + k + n * 40))) (PyInt 20) =
              PyFloat (of_int (P + k + n * 40 + 20))"
    using P k n t20 by (intro py_add_exact) simp_all
  have "build_price b z s =
          Inr (if self_iced s then PyFloat (of_int (P + k + n * 40 + 20))
               else PyFloat (of_int (P + k + n * 40)))"
    unfolding build_price_def pm v
    by (simp only: sum.case Let_def mul s1 SYRUP_PRICE_def ICED_PRICE_def n_def [symmetric]
          py_mul.simps s2 s3 if_distrib [of PyFloat])
  also have "\<dots> =
      Inr (PyFloat (spec_price b z (self_milk s) (fcard (self_syrups s)) (self_iced s)))"
    by (simp add: spec_price_def Pspec kspec n_def)
  finally show ?thesis .
qed

section \<open>The price of an order\<close>

text \<open>
  Claim C1. For a builder whose base, size and milk are entries of the catalogue,
  \<^verbatim>\<open>build\<close> returns an order whose price is the float with the exact value
  \<open>basePrice * sizeMultiplier + milkPrice + syrupCount * 40 + (20 if iced else 0)\<close>,
  for the base prices 200, 250, 300, 320, the multipliers 1.0, 1.2, 1.4 and the milk
  prices 0, 30, 30, 60, 50: none of the roundings of the float computation loses
  anything. The number of syrups is assumed to stay below \<open>2 ^ 47\<close>, so that the sum is
  below \<open>2 ^ 53\<close>; the builder never holds more than four.
\<close>

theorem build_price_formula:
  assumes "self_base s = Some b" and "b \<in> VALID_BASES"
    and "self_size s = Some z" and "z \<in> VALID_SIZES"
    and "self_milk s \<in> VALID_MILKS"
    and "fcard (self_syrups s) < 2 ^ 47"
  shows "\<exists>ord. build s = (Inr ord, s) \<and>
           order_price ord =
             PyFloat (spec_price b z (self_milk s) (fcard (self_syrups s)) (self_iced s))"
  using assms(1,3) build_price_exact [OF assms(2,4,5,6)]
  by (simp add: build_def)

text \<open>
  Scenario 2 of the specification: a large americano without milk, with one syrup, not
  iced, costs 390.0.
\<close>

theorem build_price_formula_witness:
  "self_base scenario2 = Some ''americano'' \<and> ''americano'' \<in> VALID_BASES
   \<and> self_size scenario2 = Some ''large'' \<and> ''large'' \<in> VALID_SIZES
   \<and> self_milk scenario2 \<in> VALID_MILKS \<and> fcard (self_syrups scenario2) < 2 ^ 47
   \<and> (\<exists>ord. build scenario2 = (Inr ord, scenario2) \<and> order_price ord = PyFloat 390)"
proof -
  have h: "self_base scenario2 = Some ''americano''" "''americano'' \<in> VALID_BASES"
    "self_size scenario2 = Some ''large''" "''large'' \<in> VALID_SIZES"
    "self_milk scenario2 \<in> VALID_MILKS" "fcard (self_syrups scenario2) < 2 ^ 47"
    by (simp_all add: scenario2_def VALID_BASES_def BASE_PRICES_def VALID_SIZES_def
        SIZE_MULTIPLIERS_def VALID_MILKS_def MILK_PRICES_def fcard_finsert_if fcard_fempty)
  have v: "spec_price ''americano'' ''large'' (self_milk scenario2)
             (fcard (self_syrups scenario2)) (self_iced scenario2) = 390"
    by (simp add: scenario2_def spec_price_def basePriceOf_def sizeMultiplierOf_def
        milkPriceOf_def fcard_finsert_if fcard_fempty)
  show ?thesis
    using h build_price_formula [OF h] unfolding v by simp
qed

section \<open>The description of an order\<close>

lemma build_description_eq:
  "build_description b z s =
     spec_description b z (self_milk s) (self_syrups s) (self_sugar s) (self_iced s)"
  by (simp add: build_description_def spec_description_def Let_def)

lemma build_price_succeeds:
  assumes "b \<in> VALID_BASES" "z \<in> VALID_SIZES" "self_milk s \<in> VALID_MILKS"
  shows "\<exists>p. build_price b z s = Inr p"
proof -
  obtain p m where pm: "dict_get BASE_PRICES b = Inr p" "dict_get SIZE_MULTIPLIERS z = Inr m"
    using base_times_size [OF assms(1,2)] by blast
  obtain v where v: "dict_get MILK_PRICES (self_milk s) = Inr v"
    using milk_price_lookup [OF assms(3)] by blast
  show ?thesis
    unfolding build_price_def pm v by (simp add: Let_def)
qed

lemma build_returns_order:
  assumes "fst (build s) = Inr ord"
  shows "\<exists>b z p. self_base s = Some b \<and> self_size s = Some z \<and> build_price b z s = Inr p
           \<and> ord = \<lparr>order_base = b, order_size = z, order_milk = self_milk s,
                    order_syrups = sorted_list_of_fset (self_syrups s),
                    order_sugar = self_sugar s, order_iced = self_iced s,
                    order_price = p, order_description = build_description b z s\<rparr>"
  using assms by (auto simp add: build_def split: option.splits sum.splits)

text \<open>
  Claim C2. For a builder with base and size set, every order that \<^verbatim>\<open>build\<close>
  returns is described by the size and the base separated by a blank, followed by the
  milk clause when the milk is not "none", by " + " and the distinct syrup names in
  lexicographic order joined with ", " when there is a syrup, by " (iced)" when the
  drink is iced and by the sugar clause when the sugar count is positive, each clause
  once and in this order; the tuple of syrups is sorted and free of duplicates. When
  base, size and milk are entries of the catalogue, \<^verbatim>\<open>build\<close> does return an order.
\<close>

theorem build_description_spec:
  assumes "self_base s = Some b" and "self_size s = Some z"
  shows "(\<forall>ord. fst (build s) = Inr ord \<longrightarrow>
            order_description ord =
              spec_description b z (self_milk s) (self_syrups s) (self_sugar s) (self_iced s)
            \<and> sorted (order_syrups ord) \<and> distinct (order_syrups ord)
            \<and> set (order_syrups ord) = fset (self_syrups s))
         \<and> (b \<in> VALID_BASES \<and> z \<in> VALID_SIZES \<and> self_milk s \<in> VALID_MILKS \<longrightarrow>
              (\<exists>ord. fst (build s) = Inr ord))"
proof (intro conjI allI impI)
  fix ord assume "fst (build s) = Inr ord"
  from build_returns_order [OF this] assms
  obtain p where ord: "ord = \<lparr>order_base = b, order_size = z, order_milk = self_milk s,
                    order_syrups = sorted_list_of_fset (self_syrups s),
                    order_sugar = self_sugar s, order_iced = self_iced s,
                    order_price = p, order_description = build_description b z s\<rparr>"
    by auto
  show "order_description ord =
      spec_description b z (self_milk s) (self_syrups s) (self_sugar s) (self_iced s)"
    by (simp add: ord build_description_eq)
  show "sorted (order_syrups ord)" by (simp add: ord sorted_list_of_fset.rep_eq)
  show "distinct (order_syrups ord)" by (simp add: ord sorted_list_of_fset.rep_eq)
  show "set (order_syrups ord) = fset (self_syrups s)" by (simp add: ord)
next
  assume "b \<in> VALID_BASES \<and> z \<in> VALID_SIZES \<and> self_milk s \<in> VALID_MILKS"
  then obtain p where "build_price b z s = Inr p"
    using build_price_succeeds by blast
  then show "\<exists>ord. fst (build s) = Inr ord"
    using assms by (simp add: build_def)
qed

lemma scenario1_description:
  "spec_description ''latte'' ''medium'' ''oat'' {|''vanilla''|} 2 True =
     ''medium latte with oat milk + vanilla (iced) 2 tsp sugar''"
  by code_simp

text \<open>
  Scenario 1 of the specification: a medium iced latte with oat milk, vanilla syrup
  and two spoons of sugar.
\<close>

theorem build_description_spec_witness:
  "self_base scenario1 = Some ''latte'' \<and> self_size scenario1 = Some ''medium''
   \<and> ''latte'' \<in> VALID_BASES \<and> ''medium'' \<in> VALID_SIZES \<and> self_milk scenario1 \<in> VALID_MILKS
   \<and> (\<exists>ord. fst (build scenario1) = Inr ord
         \<and> order_description ord = ''medium latte with oat milk + vanilla (iced) 2 tsp sugar'')"
proof -
  have h: "self_base scenario1 = Some ''latte''" "self_size scenario1 = Some ''medium''"
    by (simp_all add: scenario1_def)
  have v: "''latte'' \<in> VALID_BASES \<and> ''medium'' \<in> VALID_SIZES \<and> self_milk scenario1 \<in> VALID_MILKS"
    by (simp add: scenario1_def VALID_BASES_def BASE_PRICES_def VALID_SIZES_def
        SIZE_MULTIPLIERS_def VALID_MILKS_def MILK_PRICES_def)
  have d: "spec_description ''latte'' ''medium'' (self_milk scenario1) (self_syrups scenario1)
             (self_sugar scenario1) (self_iced scenario1) =
           ''medium latte with oat milk + vanilla (iced) 2 tsp sugar''"
    using scenario1_description by (simp add: scenario1_def)
  from build_description_spec [OF h] v d show ?thesis
    using h by metis
qed

section \<open>Missing required fields\<close>

lemma mentions_base: "mentions ''base'' ''Base must be set''"
  by code_simp

lemma mentions_size: "mentions ''size'' ''Size must be set''"
  by code_simp

lemma not_mentions_size: "\<not> mentions ''size'' ''Base must be set''"
  by code_simp

text \<open>
  Claim C3 as stated asks for a message that names every missing field. On a new
  builder both fields are missing, and the message of \<^verbatim>\<open>build\<close> names the base
  only: the check of the size is never reached.
\<close>

theorem build_both_missing_counterexample:
  "self_base init = None \<and> self_size init = None
   \<and> fst (build init) = Inl (ValueError ''Base must be set'')
   \<and> \<not> mentions ''size'' ''Base must be set''"
  using not_mentions_size by (simp add: init_def build_def)

text \<open>
  Claim C3, amended. \<^verbatim>\<open>build\<close> raises ValueError "Base must be set" whenever the base
  is missing, whether or not the size is set, and ValueError "Size must be set" when the
  base is set and the size is missing; the message names the first missing field. In
  both cases no order is returned and the builder is unchanged.
\<close>

theorem build_missing_field:
  "(self_base s = None \<longrightarrow> build s = (Inl (ValueError ''Base must be set''), s))
   \<and> (self_base s \<noteq> None \<and> self_size s = None \<longrightarrow>
        build s = (Inl (ValueError ''Size must be set''), s))
   \<and> mentions ''base'' ''Base must be set'' \<and> mentions ''size'' ''Size must be set''"
  using mentions_base mentions_size by (auto simp add: build_def split: option.splits)

theorem build_missing_field_witness:
  "self_base init = None \<and> build init = (Inl (ValueError ''Base must be set''), init)
   \<and> self_base only_base \<noteq> None \<and> self_size only_base = None
   \<and> build only_base = (Inl (ValueError ''Size must be set''), only_base)"
proof -
  have a: "self_base init = None" by (simp add: init_def)
  have b: "self_base only_base \<noteq> None \<and> self_size only_base = None"
    by (simp add: only_base_def init_def)
  show ?thesis
    using a b build_missing_field [of init] build_missing_field [of only_base] by simp
qed

section \<open>The range of the sugar count\<close>

lemma sugar_message:
  "''Sugar must be between '' @ str_int 0 @ '' and '' @ str_int 5 @ '' teaspoons'' =
   ''Sugar must be between 0 and 5 teaspoons''"
  by code_simp

text \<open>
  Claim C4. For every integer count, \<^verbatim>\<open>set_sugar\<close> stores the count and returns the
  builder when the count lies between 0 and 5, both included, and otherwise raises
  ValueError with a message that states both bounds, leaving the builder as it was.
\<close>

theorem set_sugar_range:
  "(0 \<le> t \<and> t \<le> 5 \<longrightarrow> set_sugar t s = (None, s\<lparr>self_sugar := t\<rparr>))
   \<and> (\<not> (0 \<le> t \<and> t \<le> 5) \<longrightarrow>
        set_sugar t s = (Some (ValueError ''Sugar must be between 0 and 5 teaspoons''), s))"
  using sugar_message by (auto simp add: set_sugar_def SUGAR_RANGE_def)

theorem set_sugar_range_witness:
  "(0::int) \<le> 2 \<and> (2::int) \<le> 5 \<and> set_sugar 2 init = (None, init\<lparr>self_sugar := 2\<rparr>)
   \<and> self_sugar (snd (set_sugar 2 init)) = 2
   \<and> \<not> ((0::int) \<le> 10 \<and> (10::int) \<le> 5)
   \<and> set_sugar 10 init = (Some (ValueError ''Sugar must be between 0 and 5 teaspoons''), init)
   \<and> \<not> ((0::int) \<le> - 1 \<and> (- 1::int) \<le> 5)
   \<and> set_sugar (- 1) init = (Some (ValueError ''Sugar must be between 0 and 5 teaspoons''), init)"
  using set_sugar_range [of 2 init] set_sugar_range [of 10 init] set_sugar_range [of "- 1" init]
  by simp

section \<open>Clearing the extras\<close>

text \<open>
  Claim C7. \<^verbatim>\<open>clear_extras\<close> sets the milk to "none", empties the set of syrups, sets
  the sugar to 0 and the iced flag to false, and leaves base and size as they were.
\<close>

theorem clear_extras_frame:
  "fst (clear_extras s) = None
   \<and> self_milk (snd (clear_extras s)) = ''none''
   \<and> self_syrups (snd (clear_extras s)) = {||}
   \<and> self_sugar (snd (clear_extras s)) = 0
   \<and> self_iced (snd (clear_extras s)) = False
   \<and> self_base (snd (clear_extras s)) = self_base s
   \<and> self_size (snd (clear_extras s)) = self_size s"
  by (simp add: clear_extras_def)

section \<open>Rejected arguments\<close>

text \<open>
  Claim C9. When \<^verbatim>\<open>set_base\<close>, \<^verbatim>\<open>set_size\<close>, \<^verbatim>\<open>set_milk\<close> or \<^verbatim>\<open>set_sugar\<close> raises, the
  whole builder is as it was before the call; each of them raises exactly when its
  argument is outside the catalogue, or outside the range of the sugar count.
\<close>

theorem setters_atomic:
  "(fst (set_base b s) \<noteq> None \<longrightarrow> snd (set_base b s) = s)
   \<and> (fst (set_size z s) \<noteq> None \<longrightarrow> snd (set_size z s) = s)
   \<and> (fst (set_milk m s) \<noteq> None \<longrightarrow> snd (set_milk m s) = s)
   \<and> (fst (set_sugar t s) \<noteq> None \<longrightarrow> snd (set_sugar t s) = s)
   \<and> (fst (set_base b s) \<noteq> None \<longleftrightarrow> b \<notin> VALID_BASES)
   \<and> (fst (set_size z s) \<noteq> None \<longleftrightarrow> z \<notin> VALID_SIZES)
   \<and> (fst (set_milk m s) \<noteq> None \<longleftrightarrow> m \<notin> VALID_MILKS)
   \<and> (fst (set_sugar t s) \<noteq> None \<longleftrightarrow> \<not> (0 \<le> t \<and> t \<le> 5))"
  by (simp add: set_base_def set_size_def set_milk_def set_sugar_def SUGAR_RANGE_def)

theorem setters_atomic_witness:
  "fst (set_base ''tea'' scenario1) \<noteq> None \<and> snd (set_base ''tea'' scenario1) = scenario1
   \<and> fst (set_size ''huge'' scenario1) \<noteq> None \<and> snd (set_size ''huge'' scenario1) = scenario1
   \<and> fst (set_milk ''goat'' scenario1) \<noteq> None \<and> snd (set_milk ''goat'' scenario1) = scenario1
   \<and> fst (set_sugar 10 scenario1) \<noteq> None \<and> snd (set_sugar 10 scenario1) = scenario1"
proof -
  have "''tea'' \<notin> VALID_BASES" "''huge'' \<notin> VALID_SIZES" "''goat'' \<notin> VALID_MILKS"
    "\<not> ((0::int) \<le> 10 \<and> (10::int) \<le> 5)"
    by (simp_all add: VALID_BASES_def BASE_PRICES_def VALID_SIZES_def SIZE_MULTIPLIERS_def
        VALID_MILKS_def MILK_PRICES_def)
  then show ?thesis
    using setters_atomic [of "''tea''" scenario1 "''huge''" "''goat''" 10] by blast
qed

section \<open>The cap on the syrups\<close>

lemma syrup_count_add_syrup:
  "fcard (self_syrups s) \<le> MAX_SYRUPS \<Longrightarrow> fcard (self_syrups (snd (add_syrup n s))) \<le> MAX_SYRUPS"
  by (auto simp add: add_syrup_def fcard_finsert_if)

lemma build_state: "snd (build s) = s"
  by (simp add: build_def split: option.splits sum.splits)

lemma snd_chained: "snd (chained r) = snd r"
  by (cases r rule: chained.cases) simp_all

lemma perform_card:
  assumes "fcard (self_syrups s) \<le> MAX_SYRUPS"
  shows "fcard (self_syrups (snd (perform c s))) \<le> MAX_SYRUPS"
proof (cases c)
  case (AddSyrup n)
  then show ?thesis
    using syrup_count_add_syrup [OF assms, of n] by (simp add: snd_chained)
next
  case Build
  have "snd (perform Build s) = s"
    using build_state [of s] by (cases "build s") (auto split: sum.splits)
  then show ?thesis using assms Build by simp
qed (use assms in \<open>auto simp add: snd_chained fcard_fempty set_base_def set_size_def set_milk_def set_sugar_def
      set_iced_def clear_extras_def reset_def SUGAR_RANGE_def Let_def\<close>)

lemma step_builder: "builder (step c ss) = snd (perform c (builder ss))"
  by (cases "perform c (builder ss)") (auto simp add: step_def split: outcome.splits)

lemma run_card:
  "fcard (self_syrups (builder ss)) \<le> MAX_SYRUPS \<Longrightarrow>
   fcard (self_syrups (builder (run cs ss))) \<le> MAX_SYRUPS"
proof (induction cs arbitrary: ss)
  case Nil
  then show ?case by simp
next
  case (Cons c cs)
  have "fcard (self_syrups (builder (step c ss))) \<le> MAX_SYRUPS"
    using perform_card [OF Cons.prems] by (simp add: step_builder)
  then show ?case using Cons.IH by simp
qed

text \<open>
  Claim C5. \<^verbatim>\<open>add_syrup\<close> never raises; on a builder that already holds four syrups it
  changes nothing; a builder with at most four syrups has at most four after any
  sequence of calls, so a new builder never holds more than four.
\<close>

theorem add_syrup_cap:
  "fst (add_syrup n s) = None
   \<and> (fcard (self_syrups s) = MAX_SYRUPS \<longrightarrow> add_syrup n s = (None, s))
   \<and> (fcard (self_syrups (builder ss)) \<le> MAX_SYRUPS \<longrightarrow>
        fcard (self_syrups (builder (run cs ss))) \<le> MAX_SYRUPS)
   \<and> fcard (self_syrups (builder (run cs \<lparr>builder = init, orders = []\<rparr>))) \<le> MAX_SYRUPS"
proof -
  have "fcard (self_syrups (builder \<lparr>builder = init, orders = []\<rparr>)) \<le> MAX_SYRUPS"
    by (simp add: init_def fcard_fempty)
  then have "fcard (self_syrups (builder (run cs \<lparr>builder = init, orders = []\<rparr>))) \<le> MAX_SYRUPS"
    by (rule run_card)
  then show ?thesis
    using run_card [of ss cs] by (simp add: add_syrup_def)
qed

lemma run_five_syrups:
  "self_syrups (builder (run five_syrups fresh)) =
     {|''vanilla'', ''caramel'', ''chocolate'', ''hazelnut''|}"
  by (simp add: five_syrups_def fresh_def init_def step_def add_syrup_def MAX_SYRUPS_def
      fcard_finsert_if fcard_fempty) auto

lemma fcard_four_syrups: "fcard (self_syrups four_syrups) = MAX_SYRUPS"
  by (simp add: four_syrups_def MAX_SYRUPS_def fcard_finsert_if fcard_fempty)

theorem add_syrup_cap_witness:
  "fcard (self_syrups four_syrups) = MAX_SYRUPS
   \<and> add_syrup ''mint'' four_syrups = (None, four_syrups)
   \<and> fcard (self_syrups (builder \<lparr>builder = four_syrups, orders = []\<rparr>)) \<le> MAX_SYRUPS
   \<and> fcard (self_syrups (builder (run five_syrups \<lparr>builder = four_syrups, orders = []\<rparr>)))
        \<le> MAX_SYRUPS"
  using fcard_four_syrups
    add_syrup_cap [of "''mint''" four_syrups "\<lparr>builder = four_syrups, orders = []\<rparr>" five_syrups]
  by simp

section \<open>Adding a syrup twice\<close>

text \<open>
  Claim C6. Adding a name a second time leaves the builder as the first call left it,
  without an error; a name that is already in the set is not added again; on a new
  builder two calls with the same name give one syrup.
\<close>

theorem add_syrup_idempotent:
  "add_syrup n (snd (add_syrup n s)) = add_syrup n s
   \<and> fst (add_syrup n s) = None
   \<and> (n |\<in>| self_syrups s \<longrightarrow> add_syrup n s = (None, s))
   \<and> fcard (self_syrups (snd (add_syrup n (snd (add_syrup n init))))) = 1"
  by (auto simp add: add_syrup_def init_def MAX_SYRUPS_def fcard_finsert_if fcard_fempty
      finsert_absorb)

theorem add_syrup_idempotent_witness:
  "''vanilla'' |\<in>| self_syrups scenario1
   \<and> add_syrup ''vanilla'' scenario1 = (None, scenario1)
   \<and> add_syrup ''chocolate'' (snd (add_syrup ''chocolate'' scenario1))
       = add_syrup ''chocolate'' scenario1
   \<and> fcard (self_syrups (snd (add_syrup ''chocolate'' (snd (add_syrup ''chocolate'' init))))) = 1"
proof -
  have "''vanilla'' |\<in>| self_syrups scenario1" by (simp add: scenario1_def)
  then show ?thesis
    using add_syrup_idempotent [of "''vanilla''" scenario1]
      add_syrup_idempotent [of "''chocolate''" scenario1]
    by simp
qed

section \<open>Orders are independent of the builder\<close>

text \<open>
  What a call on the store changes: the attributes of the builder, the set the builder
  refers to, and addresses that were unused before the call. \<^verbatim>\<open>build\<close> changes
  nothing but one unused address, where it puts the tuple.
\<close>

lemma wf_storeD:
  assumes "wf_store st"
  obtains S where "heap st (attr_syrups (this st)) = Some (SetObj S)"
    and "attr_syrups (this st) < free st"
  using assms by (auto simp add: wf_store_def split: option.splits obj.splits)

lemma wf_orderD:
  assumes "wf_order st ord"
  obtains xs where "heap st (field_syrups ord) = Some (TupleObj xs)"
    and "field_syrups ord < free st"
  using assms by (auto simp add: wf_order_def split: option.splits obj.splits)

lemma snd_chained_obj: "snd (chained_obj r) = snd r"
  by (cases r rule: chained_obj.cases) simp_all

lemma fst_chained_obj_order: "fst (chained_obj r) \<noteq> ReturnedOrderObj ord"
  by (cases r rule: chained_obj.cases) simp_all

lemma build_obj_frame:
  "this (snd (build_obj st)) = this st"
  "free st \<le> free (snd (build_obj st))"
  "a \<noteq> free st \<Longrightarrow> heap (snd (build_obj st)) a = heap st a"
  by (auto simp add: build_obj_def alloc_def Let_def split: option.splits sum.splits)

lemma build_obj_order:
  assumes "build_obj st = (Inr ord, st')"
  shows "field_syrups ord = free st" and "free st' = Suc (free st)"
    and "\<exists>ob. heap st (attr_syrups (this st)) = Some ob
           \<and> heap st' (free st) = Some (TupleObj (py_sorted ob))"
  using assms
  by (auto simp add: build_obj_def alloc_def Let_def split: option.splits sum.splits)

lemma perform_obj_wf:
  assumes "wf_store st"
  shows "wf_store (snd (perform_obj c st))"
proof -
  from assms obtain S where S: "heap st (attr_syrups (this st)) = Some (SetObj S)"
    and lt: "attr_syrups (this st) < free st"
    by (rule wf_storeD)
  show ?thesis
  proof (cases c)
    case Build
    have "snd (perform_obj Build st) = snd (build_obj st)"
      by (cases "build_obj st") (auto split: sum.splits)
    moreover have "wf_store (snd (build_obj st))"
      using S lt build_obj_frame(1) [of st] build_obj_frame(2) [of st]
        build_obj_frame(3) [of "attr_syrups (this st)" st]
      by (simp add: wf_store_def)
    ultimately show ?thesis using Build by simp
  qed (use S lt in \<open>auto simp add: snd_chained_obj wf_store_def set_base_obj_def set_size_obj_def
        set_milk_obj_def add_syrup_obj_def set_sugar_obj_def set_iced_obj_def
        clear_extras_obj_def reset_obj_def alloc_def SUGAR_RANGE_def Let_def\<close>)
qed

lemma perform_obj_free:
  "free st \<le> free (snd (perform_obj c st))"
proof (cases c)
  case Build
  have "snd (perform_obj Build st) = snd (build_obj st)"
    by (cases "build_obj st") (auto split: sum.splits)
  then show ?thesis using Build build_obj_frame(2) [of st] by simp
qed (auto simp add: snd_chained_obj set_base_obj_def set_size_obj_def
      set_milk_obj_def add_syrup_obj_def set_sugar_obj_def set_iced_obj_def
      clear_extras_obj_def reset_obj_def alloc_def SUGAR_RANGE_def Let_def
      split: option.splits obj.splits)

lemma perform_obj_heap:
  assumes "a < free st" and "a \<noteq> attr_syrups (this st)"
  shows "heap (snd (perform_obj c st)) a = heap st a"
proof (cases c)
  case Build
  have "snd (perform_obj Build st) = snd (build_obj st)"
    by (cases "build_obj st") (auto split: sum.splits)
  then show ?thesis using Build assms(1) build_obj_frame(3) [of a st] by simp
qed (use assms in \<open>auto simp add: snd_chained_obj set_base_obj_def set_size_obj_def
      set_milk_obj_def add_syrup_obj_def set_sugar_obj_def set_iced_obj_def
      clear_extras_obj_def reset_obj_def alloc_def SUGAR_RANGE_def Let_def
      split: option.splits obj.splits\<close>)

lemma perform_obj_returns_order:
  assumes "fst (perform_obj c st) = ReturnedOrderObj ord"
  shows "\<exists>st'. c = Build \<and> build_obj st = (Inr ord, st') \<and> snd (perform_obj c st) = st'"
proof (cases c)
  case Build
  then show ?thesis
    using assms by (cases "build_obj st") (auto split: sum.splits)
qed (use assms in \<open>simp_all add: fst_chained_obj_order\<close>)

lemma perform_obj_new_order:
  assumes "fst (perform_obj c st) = ReturnedOrderObj ord"
  shows "wf_order (snd (perform_obj c st)) ord"
proof -
  from perform_obj_returns_order [OF assms]
  obtain st' where b: "build_obj st = (Inr ord, st')" and s: "snd (perform_obj c st) = st'"
    by blast
  from build_obj_order [OF b] show ?thesis
    unfolding s by (auto simp add: wf_order_def)
qed

lemma perform_obj_keeps_order:
  assumes "wf_store st" and "wf_order st ord"
  shows "wf_order (snd (perform_obj c st)) ord"
    and "order_value (snd (perform_obj c st)) ord = order_value st ord"
proof -
  from assms(1) obtain S where S: "heap st (attr_syrups (this st)) = Some (SetObj S)"
    by (rule wf_storeD)
  from assms(2) obtain xs where xs: "heap st (field_syrups ord) = Some (TupleObj xs)"
    and lt: "field_syrups ord < free st"
    by (rule wf_orderD)
  from S xs have ne: "field_syrups ord \<noteq> attr_syrups (this st)" by auto
  have h: "heap (snd (perform_obj c st)) (field_syrups ord) = heap st (field_syrups ord)"
    using lt ne by (rule perform_obj_heap)
  show "wf_order (snd (perform_obj c st)) ord"
    using h xs lt perform_obj_free [of st c] by (simp add: wf_order_def)
  show "order_value (snd (perform_obj c st)) ord = order_value st ord"
    using h by (simp add: order_value_def)
qed

text \<open>
  The two models agree: on a well-formed store every call does to the builder, read as
  a value, what the method of the first model does, and raises or returns the same.
\<close>

lemma builder_valueD:
  assumes "builder_value st = Some b"
  obtains S where "heap st (attr_syrups (this st)) = Some (SetObj S)"
    and "b = \<lparr>self_base = attr_base (this st), self_size = attr_size (this st),
                self_milk = attr_milk (this st), self_syrups = S,
                self_sugar = attr_sugar (this st), self_iced = attr_iced (this st)\<rparr>"
  using assms by (auto simp add: builder_value_def split: option.splits obj.splits)

lemma outcome_value_chained:
  "outcome_value st' (fst (chained_obj (e, st))) = Some (fst (chained (e, b)))"
  by (cases e) simp_all

lemma build_price_obj_eq:
  "build_price_obj base size' t (Some (SetObj S)) =
     build_price base size'
       \<lparr>self_base = attr_base t, self_size = attr_size t, self_milk = attr_milk t,
        self_syrups = S, self_sugar = attr_sugar t, self_iced = attr_iced t\<rparr>"
  by (simp add: build_price_obj_def build_price_def cong: sum.case_cong)

lemma build_description_obj_eq:
  "build_description_obj base size' t (SetObj S) =
     build_description base size'
       \<lparr>self_base = attr_base t, self_size = attr_size t, self_milk = attr_milk t,
        self_syrups = S, self_sugar = attr_sugar t, self_iced = attr_iced t\<rparr>"
  by (simp add: build_description_obj_def build_description_def Let_def)

lemma build_obj_refines:
  assumes "wf_store st" and "builder_value st = Some b"
  shows "builder_value (snd (build_obj st)) = Some b"
    and "\<And>e. fst (build_obj st) = Inl e \<longleftrightarrow> fst (build b) = Inl e"
    and "\<And>ord. fst (build_obj st) = Inr ord \<Longrightarrow>
           \<exists>v. fst (build b) = Inr v \<and> order_value (snd (build_obj st)) ord = Some v"
    and "\<And>v. fst (build b) = Inr v \<Longrightarrow> \<exists>ord. fst (build_obj st) = Inr ord"
proof -
  from assms(2) obtain S where S: "heap st (attr_syrups (this st)) = Some (SetObj S)"
    and b: "b = \<lparr>self_base = attr_base (this st), self_size = attr_size (this st),
                self_milk = attr_milk (this st), self_syrups = S,
                self_sugar = attr_sugar (this st), self_iced = attr_iced (this st)\<rparr>"
    by (rule builder_valueD)
  from assms(1) have lt: "attr_syrups (this st) < free st"
    by (rule wf_storeD)
  then have ne: "attr_syrups (this st) \<noteq> free st" by simp
  show "builder_value (snd (build_obj st)) = Some b"
    using S b build_obj_frame(1) [of st] build_obj_frame(3) [OF ne]
    by (simp add: builder_value_def)
  show "\<And>e. fst (build_obj st) = Inl e \<longleftrightarrow> fst (build b) = Inl e"
    using S b
    by (auto simp add: build_obj_def build_def build_price_obj_eq alloc_def Let_def
        split: option.splits sum.splits)
  show "\<And>ord. fst (build_obj st) = Inr ord \<Longrightarrow>
           \<exists>v. fst (build b) = Inr v \<and> order_value (snd (build_obj st)) ord = Some v"
    using S b
    by (auto simp add: build_obj_def build_def build_price_obj_eq build_description_obj_eq
        order_value_def alloc_def Let_def split: option.splits sum.splits)
  show "\<And>v. fst (build b) = Inr v \<Longrightarrow> \<exists>ord. fst (build_obj st) = Inr ord"
    using S b
    by (auto simp add: build_obj_def build_def build_price_obj_eq alloc_def Let_def
        split: option.splits sum.splits)
qed

lemma perform_obj_refines:
  assumes "wf_store st" and "builder_value st = Some b"
  shows "builder_value (snd (perform_obj c st)) = Some (snd (perform c b))"
    and "outcome_value (snd (perform_obj c st)) (fst (perform_obj c st))
           = Some (fst (perform c b))"
proof -
  from assms(2) obtain S where S: "heap st (attr_syrups (this st)) = Some (SetObj S)"
    and b: "b = \<lparr>self_base = attr_base (this st), self_size = attr_size (this st),
                self_milk = attr_milk (this st), self_syrups = S,
                self_sugar = attr_sugar (this st), self_iced = attr_iced (this st)\<rparr>"
    by (rule builder_valueD)
  have sb: "snd (build b) = b" by (rule build_state)
  show "builder_value (snd (perform_obj c st)) = Some (snd (perform c b))"
  proof (cases c)
    case Build
    have "snd (perform_obj Build st) = snd (build_obj st)"
      by (cases "build_obj st") (auto split: sum.splits)
    moreover have "snd (perform Build b) = b"
      using sb by (cases "build b") (auto split: sum.splits)
    ultimately show ?thesis
      using Build build_obj_refines(1) [OF assms] by simp
  qed (use S b in \<open>auto simp add: snd_chained_obj snd_chained builder_value_def
        set_base_obj_def set_size_obj_def set_milk_obj_def add_syrup_obj_def set_sugar_obj_def
        set_iced_obj_def clear_extras_obj_def reset_obj_def alloc_def SUGAR_RANGE_def Let_def
        set_base_def set_size_def set_milk_def add_syrup_def set_sugar_def set_iced_def
        clear_extras_def reset_def\<close>)
  show "outcome_value (snd (perform_obj c st)) (fst (perform_obj c st))
           = Some (fst (perform c b))"
  proof (cases c)
    case Build
    show ?thesis
    proof (cases "fst (build_obj st)")
      case (Inl e)
      then have "fst (build b) = Inl e" using build_obj_refines(2) [OF assms] by simp
      with Inl Build show ?thesis
        by (cases "build_obj st"; cases "build b") simp
    next
      case (Inr ord)
      then obtain v where "fst (build b) = Inr v"
        "order_value (snd (build_obj st)) ord = Some v"
        using build_obj_refines(3) [OF assms] by blast
      with Inr Build show ?thesis
        by (cases "build_obj st"; cases "build b") simp
    qed
  qed (use S b in \<open>auto simp add: set_base_obj_def set_size_obj_def set_milk_obj_def
        add_syrup_obj_def set_sugar_obj_def set_iced_obj_def clear_extras_obj_def reset_obj_def
        alloc_def SUGAR_RANGE_def Let_def set_base_def set_size_def set_milk_def add_syrup_def
        set_sugar_def set_iced_def clear_extras_def reset_def\<close>)
qed

text \<open>A sequence of calls keeps the program well formed and every order it holds.\<close>

lemma step_obj_memory: "memory (step_obj c p) = snd (perform_obj c (memory p))"
  by (cases "perform_obj c (memory p)") (auto simp add: step_obj_def split: outcome_obj.splits)

lemma step_obj_held:
  "held (step_obj c p) =
     held p @ (case fst (perform_obj c (memory p)) of ReturnedOrderObj ord \<Rightarrow> [ord] | _ \<Rightarrow> [])"
  by (cases "perform_obj c (memory p)") (auto simp add: step_obj_def split: outcome_obj.splits)

lemma step_obj_wf:
  assumes "wf_program p"
  shows "wf_program (step_obj c p)"
proof -
  from assms have st: "wf_store (memory p)" and os: "list_all (wf_order (memory p)) (held p)"
    by (simp_all add: wf_program_def)
  have old: "list_all (wf_order (snd (perform_obj c (memory p)))) (held p)"
    using os perform_obj_keeps_order(1) [OF st] by (simp add: list_all_iff)
  have new: "list_all (wf_order (snd (perform_obj c (memory p))))
      (case fst (perform_obj c (memory p)) of ReturnedOrderObj ord \<Rightarrow> [ord] | _ \<Rightarrow> [])"
    using perform_obj_new_order [of c "memory p"]
    by (cases "fst (perform_obj c (memory p))") simp_all
  show ?thesis
    using perform_obj_wf [OF st] old new
    by (simp add: wf_program_def step_obj_memory step_obj_held)
qed

lemma step_obj_keeps:
  assumes "wf_program p" and "ord \<in> set (held p)"
  shows "order_value (memory (step_obj c p)) ord = order_value (memory p) ord"
proof -
  from assms have "wf_store (memory p)" and "wf_order (memory p) ord"
    by (simp_all add: wf_program_def list_all_iff)
  then show ?thesis
    by (simp add: step_obj_memory perform_obj_keeps_order(2))
qed

lemma run_obj_keeps:
  assumes "wf_program p"
  shows "wf_program (run_obj cs p)"
    and "\<exists>more. held (run_obj cs p) = held p @ more"
    and "ord \<in> set (held p) \<Longrightarrow>
           order_value (memory (run_obj cs p)) ord = order_value (memory p) ord"
  using assms
proof (induction cs arbitrary: p)
  case Nil
  {
    case 1 then show ?case by simp
  next
    case 2 then show ?case by simp
  next
    case 3 then show ?case by simp
  }
next
  case (Cons c cs)
  {
    case 1
    then show ?case using Cons.IH(1) step_obj_wf by simp
  next
    case 2
    then have "wf_program (step_obj c p)" by (rule step_obj_wf)
    from Cons.IH(2) [OF this] show ?case by (auto simp add: step_obj_held)
  next
    case 3
    then have w: "wf_program (step_obj c p)" using step_obj_wf by simp
    have "ord \<in> set (held (step_obj c p))" using 3 by (simp add: step_obj_held)
    from Cons.IH(3) [OF this w] step_obj_keeps [OF 3(2,1)] show ?case by simp
  }
qed

lemma wf_new_program: "wf_program new_program"
  by (simp add: wf_program_def new_program_def new_store_def wf_store_def)

lemma held_order_has_value:
  assumes "wf_program p" and "ord \<in> set (held p)"
  shows "order_value (memory p) ord \<noteq> None"
proof -
  from assms have "wf_order (memory p) ord" by (simp add: wf_program_def list_all_iff)
  then obtain xs where "heap (memory p) (field_syrups ord) = Some (TupleObj xs)"
    by (rule wf_orderD)
  then show ?thesis by (simp add: order_value_def)
qed

text \<open>
  Claim C8. \<^verbatim>\<open>build\<close> leaves the attributes of the builder, the set of syrups it
  refers to and every other object in the store as they were, and the order it returns
  reads as the order of the first model, its syrups in a tuple of its own. Whatever
  calls follow on the builder (setters, \<^verbatim>\<open>add_syrup\<close>, \<^verbatim>\<open>clear_extras\<close>, \<^verbatim>\<open>reset\<close>,
  \<^verbatim>\<open>build\<close>), the program still holds every order it held, and each of them reads as
  it did: base, size, milk, syrups, sugar, iced flag, price and description.
\<close>

theorem build_shares_nothing:
  assumes "wf_program p"
  shows "this (snd (build_obj (memory p))) = this (memory p)
    \<and> builder_value (snd (build_obj (memory p))) = builder_value (memory p)
    \<and> (\<forall>a. a < free (memory p) \<longrightarrow> heap (snd (build_obj (memory p))) a = heap (memory p) a)
    \<and> (\<forall>ord. fst (build_obj (memory p)) = Inr ord \<longrightarrow>
          (\<exists>b v. builder_value (memory p) = Some b \<and> fst (build b) = Inr v
             \<and> order_value (snd (build_obj (memory p))) ord = Some v))
    \<and> wf_program (run_obj cs p)
    \<and> take (length (held p)) (held (run_obj cs p)) = held p
    \<and> (\<forall>i < length (held p).
          order_value (memory (run_obj cs p)) (held p ! i) = order_value (memory p) (held p ! i)
          \<and> order_value (memory p) (held p ! i) \<noteq> None)"
proof -
  from assms have st: "wf_store (memory p)" by (simp add: wf_program_def)
  then obtain S where "heap (memory p) (attr_syrups (this (memory p))) = Some (SetObj S)"
    by (rule wf_storeD)
  then obtain b where b: "builder_value (memory p) = Some b"
    by (simp add: builder_value_def)
  have c1: "this (snd (build_obj (memory p))) = this (memory p)"
    by (rule build_obj_frame(1))
  have c2: "builder_value (snd (build_obj (memory p))) = builder_value (memory p)"
    using build_obj_refines(1) [OF st b] b by simp
  have c3: "\<forall>a. a < free (memory p) \<longrightarrow> heap (snd (build_obj (memory p))) a = heap (memory p) a"
    using build_obj_frame(3) [of _ "memory p"] by simp
  have c4: "\<forall>ord. fst (build_obj (memory p)) = Inr ord \<longrightarrow>
          (\<exists>b v. builder_value (memory p) = Some b \<and> fst (build b) = Inr v
             \<and> order_value (snd (build_obj (memory p))) ord = Some v)"
    using build_obj_refines(3) [OF st b] b by blast
  have c5: "wf_program (run_obj cs p)"
    using assms by (rule run_obj_keeps(1))
  obtain more where "held (run_obj cs p) = held p @ more"
    using run_obj_keeps(2) [OF assms] by blast
  then have c6: "take (length (held p)) (held (run_obj cs p)) = held p" by simp
  have c7: "\<forall>i < length (held p).
          order_value (memory (run_obj cs p)) (held p ! i) = order_value (memory p) (held p ! i)
          \<and> order_value (memory p) (held p ! i) \<noteq> None"
    using run_obj_keeps(3) [OF assms] held_order_has_value [OF assms] by simp
  from c1 c2 c3 c4 c5 c6 c7 show ?thesis by blast
qed

text \<open>
  A medium latte with vanilla syrup is built; then the extras are cleared, which
  empties in place the very set the order was made from, caramel is added, the base is
  changed, a second order is built and the builder is reset. The first order still
  lists vanilla.
\<close>

lemma vanilla_program_values:
  "map (order_value (memory vanilla_program)) (held vanilla_program) = [Some vanilla_order]"
  by code_simp

lemma later_program_values:
  "map (order_value (memory (run_obj later_calls vanilla_program)))
     (held (run_obj later_calls vanilla_program)) = [Some vanilla_order, Some caramel_order]"
  by code_simp

lemma later_program_builder:
  "builder_value (memory (run_obj later_calls vanilla_program)) = Some init"
  by code_simp

lemma cleared_in_place:
  "heap (memory (run_obj [ClearExtras] vanilla_program))
     (attr_syrups (this (memory vanilla_program))) = Some (SetObj {||})"
  by code_simp

theorem build_shares_nothing_witness:
  "wf_program vanilla_program
   \<and> (0::nat) < length (held vanilla_program)
   \<and> order_value (memory vanilla_program) (held vanilla_program ! 0) = Some vanilla_order
   \<and> order_value (memory (run_obj later_calls vanilla_program)) (held vanilla_program ! 0)
       = Some vanilla_order
   \<and> take (length (held vanilla_program)) (held (run_obj later_calls vanilla_program))
       = held vanilla_program
   \<and> map (order_value (memory (run_obj later_calls vanilla_program)))
         (held (run_obj later_calls vanilla_program)) = [Some vanilla_order, Some caramel_order]"
proof -
  have w: "wf_program vanilla_program"
    using build_shares_nothing [OF wf_new_program, of first_calls]
    by (simp add: vanilla_program_def)
  have l: "(0::nat) < length (held vanilla_program)"
    using vanilla_program_values [THEN arg_cong, of length] by simp
  have v: "order_value (memory vanilla_program) (held vanilla_program ! 0) = Some vanilla_order"
    using vanilla_program_values l by (cases "held vanilla_program") simp_all
  from build_shares_nothing [OF w, of later_calls] l v later_program_values
  show ?thesis using w by simp
qed

section \<open>Syrup names are not checked\<close>

lemma sublist_in_context:
  assumes "sublist a b"
  shows "sublist a (p @ b @ q)"
proof -
  from assms obtain ps ss where "b = ps @ a @ ss" by (auto simp add: sublist_def)
  then have "p @ b @ q = (p @ ps) @ a @ (ss @ q)" by simp
  then show ?thesis unfolding sublist_def by blast
qed

lemma sublist_join:
  "x \<in> set xs \<Longrightarrow> sublist x (join sep xs)"
proof (induction sep xs rule: join.induct)
  case (1 sep)
  then show ?case by simp
next
  case (2 sep y)
  then show ?case by simp
next
  case (3 sep y z zs)
  show ?case
  proof (cases "x = y")
    case True
    then show ?thesis by simp
  next
    case False
    with 3 have "sublist x (join sep (z # zs))" by simp
    then have "sublist x ((y @ sep) @ join sep (z # zs) @ [])"
      by (rule sublist_in_context)
    then show ?thesis by simp
  qed
qed

lemma syrup_in_description:
  assumes "n |\<in>| syrups"
  shows "sublist n (spec_description b z m syrups sugar iced)"
proof -
  from assms have ne: "syrups \<noteq> {||}" by auto
  from assms have "n \<in> set (sorted_list_of_fset syrups)" by simp
  then have "sublist n (join '', '' (sorted_list_of_fset syrups))"
    by (rule sublist_join)
  then have "sublist n ((z @ '' '' @ b @ (if m \<noteq> ''none'' then '' with '' @ m @ '' milk'' else [])
      @ '' + '') @ join '', '' (sorted_list_of_fset syrups)
      @ ((if iced then '' (iced)'' else [])
         @ (if 0 < sugar then '' '' @ str_int sugar @ '' tsp sugar'' else [])))"
    by (rule sublist_in_context)
  then show ?thesis
    using ne by (simp add: spec_description_def)
qed

text \<open>
  Claim C10. \<^verbatim>\<open>add_syrup\<close> checks its argument against no catalogue: for every string,
  on a builder with fewer than four syrups, the call returns without an error and the
  name is in the set; with base, size and milk set, \<^verbatim>\<open>build\<close> then returns an order
  that lists the name among its syrups, has it in the description and charges 40 for
  it like for any other syrup.
\<close>

theorem add_syrup_any_name:
  assumes "self_base s = Some b" and "b \<in> VALID_BASES"
    and "self_size s = Some z" and "z \<in> VALID_SIZES"
    and "self_milk s \<in> VALID_MILKS"
    and "fcard (self_syrups s) < MAX_SYRUPS"
  shows "\<exists>s' ord. add_syrup n s = (None, s') \<and> n |\<in>| self_syrups s'
           \<and> build s' = (Inr ord, s')
           \<and> n \<in> set (order_syrups ord)
           \<and> sublist n (order_description ord)
           \<and> order_price ord =
               PyFloat (spec_price b z (self_milk s) (fcard (self_syrups s')) (self_iced s))
           \<and> (n |\<notin>| self_syrups s \<longrightarrow>
                order_price ord =
                  PyFloat (spec_price b z (self_milk s) (fcard (self_syrups s)) (self_iced s)
                           + 40))"
proof -
  define s' where "s' = s\<lparr>self_syrups := finsert n (self_syrups s)\<rparr>"
  have a: "add_syrup n s = (None, s')"
    using assms(6) by (simp add: add_syrup_def s'_def)
  have mem: "n |\<in>| self_syrups s'" by (simp add: s'_def)
  have f: "self_base s' = Some b" "self_size s' = Some z" "self_milk s' = self_milk s"
    "self_iced s' = self_iced s"
    using assms(1,3) by (simp_all add: s'_def)
  have "fcard (self_syrups s') \<le> Suc (fcard (self_syrups s))"
    by (simp add: s'_def fcard_finsert_if)
  with assms(6) have small: "fcard (self_syrups s') < 2 ^ 47"
    by (simp add: MAX_SYRUPS_def)
  have m': "self_milk s' \<in> VALID_MILKS" using assms(5) f by simp
  have p: "build_price b z s' =
      Inr (PyFloat (spec_price b z (self_milk s) (fcard (self_syrups s')) (self_iced s)))"
    using build_price_exact [OF assms(2,4) m' small] f by simp
  define ord where "ord =
     \<lparr>order_base = b, order_size = z, order_milk = self_milk s',
      order_syrups = sorted_list_of_fset (self_syrups s'),
      order_sugar = self_sugar s', order_iced = self_iced s',
      order_price = PyFloat (spec_price b z (self_milk s) (fcard (self_syrups s')) (self_iced s)),
      order_description = build_description b z s'\<rparr>"
  have bd: "build s' = (Inr ord, s')"
    using f p by (simp add: build_def ord_def)
  have i1: "n \<in> set (order_syrups ord)" using mem by (simp add: ord_def)
  have i2: "sublist n (order_description ord)"
    using syrup_in_description [OF mem] by (simp add: ord_def build_description_eq)
  have i3: "order_price ord =
      PyFloat (spec_price b z (self_milk s) (fcard (self_syrups s')) (self_iced s))"
    by (simp add: ord_def)
  have i4: "n |\<notin>| self_syrups s \<longrightarrow>
      order_price ord =
        PyFloat (spec_price b z (self_milk s) (fcard (self_syrups s)) (self_iced s) + 40)"
    by (simp add: ord_def s'_def fcard_finsert_if spec_price_def)
  from a mem bd i1 i2 i3 i4 show ?thesis by blast
qed

text \<open>The empty string is accepted as a syrup and raises the price of a small espresso to 240.\<close>

theorem add_syrup_any_name_witness:
  "self_base espresso_small = Some ''espresso'' \<and> ''espresso'' \<in> VALID_BASES
   \<and> self_size espresso_small = Some ''small'' \<and> ''small'' \<in> VALID_SIZES
   \<and> self_milk espresso_small \<in> VALID_MILKS
   \<and> fcard (self_syrups espresso_small) < MAX_SYRUPS
   \<and> '''' |\<notin>| self_syrups espresso_small
   \<and> (\<exists>s' ord. add_syrup '''' espresso_small = (None, s') \<and> '''' |\<in>| self_syrups s'
         \<and> build s' = (Inr ord, s') \<and> '''' \<in> set (order_syrups ord)
         \<and> sublist '''' (order_description ord)
         \<and> order_price ord = PyFloat 240)"
proof -
  have h: "self_base espresso_small = Some ''espresso''" "''espresso'' \<in> VALID_BASES"
    "self_size espresso_small = Some ''small''" "''small'' \<in> VALID_SIZES"
    "self_milk espresso_small \<in> VALID_MILKS"
    "fcard (self_syrups espresso_small) < MAX_SYRUPS"
    by (simp_all add: espresso_small_def init_def VALID_BASES_def BASE_PRICES_def VALID_SIZES_def
        SIZE_MULTIPLIERS_def VALID_MILKS_def MILK_PRICES_def MAX_SYRUPS_def fcard_fempty)
  have e: "'''' |\<notin>| self_syrups espresso_small"
    by (simp add: espresso_small_def init_def)
  have v: "spec_price ''espresso'' ''small'' (self_milk espresso_small)
             (fcard (self_syrups espresso_small)) (self_iced espresso_small) + 40 = 240"
    by (simp add: espresso_small_def init_def spec_price_def basePriceOf_def sizeMultiplierOf_def
        milkPriceOf_def fcard_fempty)
  from add_syrup_any_name [OF h, of "''''"] e
  obtain s' ord where "add_syrup '''' espresso_small = (None, s')" "'''' |\<in>| self_syrups s'"
    "build s' = (Inr ord, s')" "'''' \<in> set (order_syrups ord)"
    "sublist '''' (order_description ord)"
    "order_price ord = PyFloat (spec_price ''espresso'' ''small'' (self_milk espresso_small)
             (fcard (self_syrups espresso_small)) (self_iced espresso_small) + 40)"
    by blast
  then show ?thesis using h e unfolding v by blast
qed

end
